theory Spec2Isabelle
  imports Complex_Main "HOL-Library.Log_Nat"
begin

section \<open>JavaScript values used by the application\<close>

text \<open>
  A JavaScript \<open>number\<close> is an IEEE 754 binary64 value: NaN, the two infinities, or a
  finite value with a sign (so that \<open>-0\<close> is distinct from \<open>+0\<close>).  The flag is
  \<open>True\<close> for a negative sign; the magnitude of a finite value is a non-negative
  rational.
\<close>

datatype number = NaN | Infinity bool | Num bool rat

text \<open>
  Rounding of a non-negative rational to the binary64 grid (53 significant bits, least
  exponent \<open>-1074\<close>, ties to the even significand).  The result \<open>2 ^ 1024\<close> or more
  stands for overflow, which \<open>to_number\<close> turns into an infinity.
\<close>

definition pow2 :: "int \<Rightarrow> rat" where
  "pow2 e = (if 0 \<le> e then 2 ^ nat e else 1 / 2 ^ nat (- e))"

definition pow10 :: "int \<Rightarrow> rat" where
  "pow10 e = (if 0 \<le> e then 10 ^ nat e else 1 / 10 ^ nat (- e))"

definition round_half_even :: "rat \<Rightarrow> int" where
  "round_half_even r = (let f = \<lfloor>r\<rfloor>; d = r - of_int f in
      if d < 1/2 then f else if 1/2 < d then f + 1 else if even f then f else f + 1)"

definition ilog2 :: "rat \<Rightarrow> int" where
  "ilog2 q = (let k = bitlen (fst (quotient_of q)) - bitlen (snd (quotient_of q))
              in if pow2 k \<le> q then k else k - 1)"

definition binary64 :: "rat \<Rightarrow> rat" where
  "binary64 q = (if q = 0 then 0 else
     let e = max (ilog2 q - 52) (- 1074) in of_int (round_half_even (q / pow2 e)) * pow2 e)"

definition to_number :: "bool \<Rightarrow> rat \<Rightarrow> number" where
  "to_number s q = (let r = binary64 q in if 2 ^ 1024 \<le> r then Infinity s else Num s r)"

text \<open>The operators \<open>*\<close>, \<open>/\<close> and \<open>+\<close> on numbers, each correctly rounded.\<close>

fun mul_number :: "number \<Rightarrow> number \<Rightarrow> number" where
  "mul_number NaN y = NaN"
| "mul_number x NaN = NaN"
| "mul_number (Infinity s) (Infinity t) = Infinity (s \<noteq> t)"
| "mul_number (Infinity s) (Num t q) = (if q = 0 then NaN else Infinity (s \<noteq> t))"
| "mul_number (Num s p) (Infinity t) = (if p = 0 then NaN else Infinity (s \<noteq> t))"
| "mul_number (Num s p) (Num t q) = to_number (s \<noteq> t) (p * q)"

fun div_number :: "number \<Rightarrow> number \<Rightarrow> number" where
  "div_number NaN y = NaN"
| "div_number x NaN = NaN"
| "div_number (Infinity s) (Infinity t) = NaN"
| "div_number (Infinity s) (Num t q) = Infinity (s \<noteq> t)"
| "div_number (Num s p) (Infinity t) = Num (s \<noteq> t) 0"
| "div_number (Num s p) (Num t q) =
     (if q = 0 then (if p = 0 then NaN else Infinity (s \<noteq> t))
      else to_number (s \<noteq> t) (p / q))"

definition signed :: "bool \<Rightarrow> rat \<Rightarrow> rat" where
  "signed s q = (if s then - q else q)"

fun add_number :: "number \<Rightarrow> number \<Rightarrow> number" where
  "add_number NaN y = NaN"
| "add_number x NaN = NaN"
| "add_number (Infinity s) (Infinity t) = (if s = t then Infinity s else NaN)"
| "add_number (Infinity s) (Num t q) = Infinity s"
| "add_number (Num s p) (Infinity t) = Infinity t"
| "add_number (Num s p) (Num t q) =
     (let v = signed s p + signed t q
      in if v = 0 then Num (s \<and> t) 0 else to_number (v < 0) \<bar>v\<bar>)"

instantiation number :: "{plus, times, inverse}"
begin
definition inverse_number :: "number \<Rightarrow> number" where "inverse_number = div_number (Num False 1)"
definition plus_number :: "number \<Rightarrow> number \<Rightarrow> number" where "plus_number = add_number"
definition times_number :: "number \<Rightarrow> number \<Rightarrow> number" where "times_number = mul_number"
definition divide_number :: "number \<Rightarrow> number \<Rightarrow> number" where "divide_number = div_number"
instance ..
end

text \<open>The global functions \<open>isNaN\<close> and \<open>parseFloat\<close>.\<close>

definition isNaN :: "number \<Rightarrow> bool" where
  "isNaN n = (n = NaN)"

text \<open>
  \<open>parseFloat\<close> skips leading white space and reads the longest prefix that is a
  \<open>StrDecimalLiteral\<close>: an optional sign, then \<open>Infinity\<close> or decimal digits with an
  optional fraction and an optional exponent.  Its value is the exact decimal value
  rounded to binary64.  Strings are lists of 8-bit characters.
\<close>

definition is_digit :: "char \<Rightarrow> bool" where
  "is_digit c = (48 \<le> (of_char c :: int) \<and> (of_char c :: int) \<le> 57)"

definition digit_val :: "char \<Rightarrow> int" where
  "digit_val c = of_char c - 48"

definition digits_val :: "string \<Rightarrow> int" where
  "digits_val ds = foldl (\<lambda>a c. 10 * a + digit_val c) 0 ds"

definition is_whitespace :: "char \<Rightarrow> bool" where
  "is_whitespace c = ((of_char c :: int) \<in> {9, 10, 11, 12, 13, 32, 160})"

definition exponent_part :: "string \<Rightarrow> int" where
  "exponent_part r = (case r of
       [] \<Rightarrow> 0
     | c # r' \<Rightarrow>
         if c = CHR ''e'' \<or> c = CHR ''E'' then
           (case r' of
              [] \<Rightarrow> 0
            | d # r'' \<Rightarrow>
                if d = CHR ''+'' \<and> takeWhile is_digit r'' \<noteq> []
                  then digits_val (takeWhile is_digit r'')
                else if d = CHR ''-'' \<and> takeWhile is_digit r'' \<noteq> []
                  then - digits_val (takeWhile is_digit r'')
                else digits_val (takeWhile is_digit r'))
         else 0)"

definition StrUnsignedDecimalLiteral :: "bool \<Rightarrow> string \<Rightarrow> number" where
  "StrUnsignedDecimalLiteral s t =
     (if take 8 t = ''Infinity'' then Infinity s
      else
        let ip = takeWhile is_digit t; r1 = dropWhile is_digit t;
            fp = (case r1 of [] \<Rightarrow> [] | c # r \<Rightarrow> if c = CHR ''.'' then takeWhile is_digit r else []);
            r2 = (case r1 of [] \<Rightarrow> [] | c # r \<Rightarrow> if c = CHR ''.'' then dropWhile is_digit r else r1)
        in if ip = [] \<and> fp = [] then NaN
           else to_number s ((of_int (digits_val ip) + of_int (digits_val fp) / 10 ^ length fp)
                               * pow10 (exponent_part r2)))"

definition parseFloat :: "string \<Rightarrow> number" where
  "parseFloat str =
     (case dropWhile is_whitespace str of
        [] \<Rightarrow> NaN
      | c # r \<Rightarrow>
          if c = CHR ''+'' then StrUnsignedDecimalLiteral False r
          else if c = CHR ''-'' then StrUnsignedDecimalLiteral True r
          else StrUnsignedDecimalLiteral False (c # r))"

text \<open>
  \<open>Number.prototype.toFixed\<close>: the integer \<open>n\<close> with \<open>n / 10 ^ f\<close> nearest to the
  magnitude (the larger one on a tie), printed with \<open>f\<close> digits after the point; from
  \<open>10 ^ 21\<close> on, the result is that of \<open>Number::toString\<close>, the shortest digit string
  that reads back as the same number, in exponential notation.
\<close>

definition digit_char :: "int \<Rightarrow> char" where
  "digit_char n = char_of (48 + n)"

function digits_of :: "int \<Rightarrow> string" where
  "digits_of n = (if n < 10 then [digit_char n] else digits_of (n div 10) @ [digit_char (n mod 10)])"
  by pat_completeness auto
termination
  by (relation "measure nat") auto

declare digits_of.simps [simp del]

definition exp_candidates :: "rat \<Rightarrow> nat \<Rightarrow> nat \<Rightarrow> (int \<times> nat) list" where
  "exp_candidates x N k =
     filter (\<lambda>(s, n). 10 ^ (k - 1) \<le> s \<and> s < 10 ^ k \<and> binary64 (of_int s * 10 ^ (n - k)) = x)
       (concat (map (\<lambda>n. [(\<lfloor>x / 10 ^ (n - k)\<rfloor>, n), (\<lfloor>x / 10 ^ (n - k)\<rfloor> + 1, n)]) [N, N + 1]))"

definition exp_closer :: "rat \<Rightarrow> nat \<Rightarrow> int \<times> nat \<Rightarrow> int \<times> nat \<Rightarrow> int \<times> nat" where
  "exp_closer x k a b =
     (let da = \<bar>of_int (fst a) * 10 ^ (snd a - k) - x\<bar>; db = \<bar>of_int (fst b) * 10 ^ (snd b - k) - x\<bar>
      in if da < db \<or> (da = db \<and> even (fst a)) then a else b)"

definition toString_exponential :: "rat \<Rightarrow> string" where
  "toString_exponential x =
     (let N = length (digits_of \<lfloor>x\<rfloor>);
          k = (case filter (\<lambda>k. exp_candidates x N k \<noteq> []) [1 ..< 18] of [] \<Rightarrow> 17 | k # _ \<Rightarrow> k);
          (s, n) = (case exp_candidates x N k of [] \<Rightarrow> (\<lfloor>x / 10 ^ (N - k)\<rfloor>, N)
                    | c # cs \<Rightarrow> fold (exp_closer x k) cs c);
          ds = digits_of s
      in (if k = 1 then ds else take 1 ds @ ''.'' @ drop 1 ds) @ ''e+'' @ digits_of (int n - 1))"

definition toFixed :: "nat \<Rightarrow> number \<Rightarrow> string" where
  "toFixed f x =
     (case x of
        NaN \<Rightarrow> ''NaN''
      | Infinity s \<Rightarrow> (if s then ''-Infinity'' else ''Infinity'')
      | Num s q \<Rightarrow>
          (if s \<and> q \<noteq> 0 then ''-'' else []) @
          (if 10 ^ 21 \<le> q then toString_exponential q
           else
             let n = \<lfloor>q * 10 ^ f + 1 / 2\<rfloor>;
                 m = digits_of n;
                 m = (if f \<noteq> 0 \<and> length m \<le> f then replicate (f + 1 - length m) CHR ''0'' @ m else m)
             in if f \<noteq> 0 then take (length m - f) m @ ''.'' @ drop (length m - f) m else m))"

text \<open>The global function \<open>isFinite\<close> on numbers.\<close>

fun isFinite :: "number \<Rightarrow> bool" where
  "isFinite (Num s q) = True"
| "isFinite x = False"

text \<open>A magnitude rounded to \<open>f\<close> decimal places, a half rounding up.\<close>

definition rounded :: "nat \<Rightarrow> rat \<Rightarrow> rat" where
  "rounded f q = of_int \<lfloor>q * 10 ^ f + 1 / 2\<rfloor> / 10 ^ f"

text \<open>The constants of \<open>types.ts\<close>: the decimal literals, rounded to binary64.\<close>

definition GRAINS_PER_KG :: number where
  "GRAINS_PER_KG = to_number False (154323584 / 10 ^ 4)"

definition GRAINS_PER_GRAM :: number where
  "GRAINS_PER_GRAM = to_number False (154323584 / 10 ^ 7)"

text \<open>\<open>ToBoolean\<close> on numbers and on possibly undefined strings, and the operator \<open>||\<close>.\<close>

fun truthy_number :: "number \<Rightarrow> bool" where
  "truthy_number NaN = False"
| "truthy_number (Infinity s) = True"
| "truthy_number (Num s q) = (q \<noteq> 0)"

fun truthy_string :: "string option \<Rightarrow> bool" where
  "truthy_string None = False"
| "truthy_string (Some s) = (s \<noteq> [])"

definition or_number :: "number \<Rightarrow> number \<Rightarrow> number" where
  "or_number a b = (if truthy_number a then a else b)"

definition or_number_opt :: "number option \<Rightarrow> number \<Rightarrow> number" where
  "or_number_opt a b = (case a of None \<Rightarrow> b | Some n \<Rightarrow> or_number n b)"

definition or_string :: "string option \<Rightarrow> string \<Rightarrow> string" where
  "or_string a b = (if truthy_string a then the a else b)"

section \<open>Data model (types.ts)\<close>

record LoadRecord =
  id' :: string
  name :: string
  caliber :: string
  bulletWeight :: number
  powderType :: string
  powderCharge' :: number
  primerType :: string
  date :: string

text \<open>\<open>Partial<LoadRecord>\<close>: every property may be absent; \<open>{}\<close> has none.\<close>

record Partial_LoadRecord =
  id_opt :: "string option"
  name_opt :: "string option"
  caliber_opt :: "string option"
  bulletWeight_opt :: "number option"
  powderType_opt :: "string option"
  powderCharge_opt :: "number option"
  primerType_opt :: "string option"
  date_opt :: "string option"

definition empty_Partial :: Partial_LoadRecord where
  "empty_Partial = \<lparr> id_opt = None, name_opt = None, caliber_opt = None,
     bulletWeight_opt = None, powderType_opt = None, powderCharge_opt = None,
     primerType_opt = None, date_opt = None \<rparr>"

record CostInputs =
  powderPrice :: number
  powderWeight :: number
  powderCharge :: number
  primerPrice :: number
  primerCount :: number
  bulletPrice :: number
  bulletCount :: number
  brassPrice :: number
  brassCount :: number
  brassLife :: number

text \<open>The object returned by \<open>calculatedCosts\<close>.\<close>

record CostBreakdown =
  powder :: number
  primer :: number
  bullet :: number
  brass :: number
  total :: number
  per100 :: number

record Hit =
  hit_x :: number
  hit_y :: number
  hit_ring :: "(number + string) option"

record AnalysisResult =
  groupSizeMm :: number
  groupSizeMoa :: "number option"
  numberOfHits :: number
  confidence :: number
  detectedHits :: "Hit list"
  referenceFound :: bool
  rings :: "(string \<rightharpoonup> number) option"
  score :: "number option"

text \<open>What a call of the host can throw.\<close>

datatype js_error = SyntaxError | TypeError | ApiError string

section \<open>Cost calculator\<close>

definition calculatedCosts :: "CostInputs \<Rightarrow> CostBreakdown" where
  "calculatedCosts costs =
     (let powderCostPerGrain = (powderPrice costs / powderWeight costs) / GRAINS_PER_KG;
          powderCost = powderCostPerGrain * powderCharge costs;
          primerCost = primerPrice costs / primerCount costs;
          bulletCost = bulletPrice costs / bulletCount costs;
          brassCost = (brassPrice costs / brassCount costs) / brassLife costs;
          total = powderCost + primerCost + bulletCost + brassCost
      in \<lparr> powder = powderCost, primer = primerCost, bullet = bulletCost, brass = brassCost,
           total = total, per100 = total * Num False 100 \<rparr>)"

text \<open>The initial value of the state hook \<open>costs\<close>.\<close>

definition initial_costs :: CostInputs where
  "initial_costs = \<lparr> powderPrice = Num False 85, powderWeight = Num False 1,
     powderCharge = Num False 42, primerPrice = Num False 65, primerCount = Num False 1000,
     bulletPrice = Num False 35, bulletCount = Num False 100, brassPrice = Num False 45,
     brassCount = Num False 50, brassLife = Num False 5 \<rparr>"

text \<open>
  The \<open>onChange\<close> handlers of the ten numeric inputs; \<open>v\<close> is \<open>e.target.value\<close>.
\<close>

definition onChange_powderPrice :: "string \<Rightarrow> CostInputs \<Rightarrow> CostInputs" where
  "onChange_powderPrice v costs = costs\<lparr> powderPrice := or_number (parseFloat v) (Num False 0) \<rparr>"

definition onChange_powderWeight :: "string \<Rightarrow> CostInputs \<Rightarrow> CostInputs" where
  "onChange_powderWeight v costs = costs\<lparr> powderWeight := or_number (parseFloat v) (Num False 0) \<rparr>"

definition onChange_powderCharge :: "string \<Rightarrow> CostInputs \<Rightarrow> CostInputs" where
  "onChange_powderCharge v costs = costs\<lparr> powderCharge := or_number (parseFloat v) (Num False 0) \<rparr>"

definition onChange_primerPrice :: "string \<Rightarrow> CostInputs \<Rightarrow> CostInputs" where
  "onChange_primerPrice v costs = costs\<lparr> primerPrice := or_number (parseFloat v) (Num False 0) \<rparr>"

definition onChange_primerCount :: "string \<Rightarrow> CostInputs \<Rightarrow> CostInputs" where
  "onChange_primerCount v costs = costs\<lparr> primerCount := or_number (parseFloat v) (Num False 0) \<rparr>"

definition onChange_bulletPrice :: "string \<Rightarrow> CostInputs \<Rightarrow> CostInputs" where
  "onChange_bulletPrice v costs = costs\<lparr> bulletPrice := or_number (parseFloat v) (Num False 0) \<rparr>"

definition onChange_bulletCount :: "string \<Rightarrow> CostInputs \<Rightarrow> CostInputs" where
  "onChange_bulletCount v costs = costs\<lparr> bulletCount := or_number (parseFloat v) (Num False 0) \<rparr>"

definition onChange_brassPrice :: "string \<Rightarrow> CostInputs \<Rightarrow> CostInputs" where
  "onChange_brassPrice v costs = costs\<lparr> brassPrice := or_number (parseFloat v) (Num False 0) \<rparr>"

definition onChange_brassCount :: "string \<Rightarrow> CostInputs \<Rightarrow> CostInputs" where
  "onChange_brassCount v costs = costs\<lparr> brassCount := or_number (parseFloat v) (Num False 0) \<rparr>"

definition onChange_brassLife :: "string \<Rightarrow> CostInputs \<Rightarrow> CostInputs" where
  "onChange_brassLife v costs = costs\<lparr> brassLife := or_number (parseFloat v) (Num False 1) \<rparr>"

section \<open>Unit converter\<close>

record ConverterState =
  convGrains :: string
  convGrams :: string

definition initial_converter :: ConverterState where
  "initial_converter = \<lparr> convGrains = ''15.43'', convGrams = ''1.00'' \<rparr>"

definition handleGrainsChange :: "string \<Rightarrow> ConverterState \<Rightarrow> ConverterState" where
  "handleGrainsChange val st =
     (let st = st\<lparr> convGrains := val \<rparr>; num = parseFloat val
      in if \<not> isNaN num then st\<lparr> convGrams := toFixed 4 (num / GRAINS_PER_GRAM) \<rparr> else st)"

definition handleGramsChange :: "string \<Rightarrow> ConverterState \<Rightarrow> ConverterState" where
  "handleGramsChange val st =
     (let st = st\<lparr> convGrams := val \<rparr>; num = parseFloat val
      in if \<not> isNaN num then st\<lparr> convGrains := toFixed 2 (num * GRAINS_PER_GRAM) \<rparr> else st)"

text \<open>
  The round trip of a value typed into the grams field: the grains field it produces
  is fed back through the grains handler.
\<close>

definition grams_round_trip :: "string \<Rightarrow> ConverterState \<Rightarrow> ConverterState" where
  "grams_round_trip val st =
     (let st1 = handleGramsChange val st in handleGrainsChange (convGrains st1) st1)"

text \<open>Two finite numbers lie within \<open>tol\<close> of each other.\<close>

fun within_tolerance :: "rat \<Rightarrow> number \<Rightarrow> number \<Rightarrow> bool" where
  "within_tolerance tol (Num s p) (Num t q) = (\<bar>signed s p - signed t q\<bar> \<le> tol)"
| "within_tolerance tol a b = False"

section \<open>Load manager state of the component \<open>App\<close>\<close>

text \<open>
  The state hooks \<open>loads\<close> and \<open>newLoad\<close> together with the browser's
  \<open>localStorage\<close>, a store from keys to strings.
\<close>

record LoadState =
  loads :: "LoadRecord list"
  newLoad :: Partial_LoadRecord
  localStorage :: "string \<rightharpoonup> string"

text \<open>
  \<open>JSON.stringify\<close> at the type \<open>LoadRecord[]\<close> is a parameter of the handlers that
  persist the list.
\<close>

definition saveLoads :: "(LoadRecord list \<Rightarrow> string) \<Rightarrow> LoadRecord list \<Rightarrow> LoadState \<Rightarrow> LoadState" where
  "saveLoads JSON_stringify updatedLoads st =
     st\<lparr> loads := updatedLoads,
         localStorage := (localStorage st)(''reloading_loads'' \<mapsto> JSON_stringify updatedLoads) \<rparr>"

text \<open>
  \<open>addLoad\<close>: \<open>uuid\<close> is the value returned by \<open>crypto.randomUUID()\<close> and \<open>today\<close> the
  string returned by \<open>new Date().toLocaleDateString('de-DE')\<close> at the call.
\<close>

definition addLoad :: "(LoadRecord list \<Rightarrow> string) \<Rightarrow> string \<Rightarrow> string \<Rightarrow> LoadState \<Rightarrow> LoadState" where
  "addLoad JSON_stringify uuid today st =
     (if truthy_string (name_opt (newLoad st)) \<and> truthy_string (caliber_opt (newLoad st)) then
        let record = \<lparr> id' = uuid,
                name = or_string (name_opt (newLoad st)) [],
                caliber = or_string (caliber_opt (newLoad st)) [],
                bulletWeight = or_number_opt (bulletWeight_opt (newLoad st)) (Num False 0),
                powderType = or_string (powderType_opt (newLoad st)) [],
                powderCharge' = or_number_opt (powderCharge_opt (newLoad st)) (Num False 0),
                primerType = or_string (primerType_opt (newLoad st)) [],
                date = today \<rparr>
        in (saveLoads JSON_stringify (record # loads st) st)\<lparr> newLoad := empty_Partial \<rparr>
      else st)"

definition deleteLoad :: "(LoadRecord list \<Rightarrow> string) \<Rightarrow> string \<Rightarrow> LoadState \<Rightarrow> LoadState" where
  "deleteLoad JSON_stringify i st =
     saveLoads JSON_stringify (filter (\<lambda>l. id' l \<noteq> i) (loads st)) st"

text \<open>
  The effect run once when \<open>App\<close> is mounted.  \<open>JSON.parse\<close>, at the type
  \<open>LoadRecord[]\<close> the source gives its result, is a parameter; it throws on text that
  is not JSON.  The effect has no handler: what \<open>JSON.parse\<close> throws leaves the effect.
\<close>

definition load_effect :: "(string \<Rightarrow> js_error + LoadRecord list) \<Rightarrow> LoadState \<Rightarrow> js_error + LoadState" where
  "load_effect JSON_parse st =
     (let savedLoads = localStorage st ''reloading_loads''
      in if truthy_string savedLoads then
           (case JSON_parse (the savedLoads) of
              Inl e \<Rightarrow> Inl e
            | Inr parsed \<Rightarrow> Inr (st\<lparr> loads := parsed \<rparr>))
         else Inr st)"

text \<open>The user's actions on the load manager tab, each with the handler it runs.\<close>

datatype LoadEvent =
    ChangeName string
  | ChangeCaliber string
  | ChangeBulletWeight string
  | ChangePowderType string
  | ChangePowderCharge string
  | ChangePrimerType string
  | ClickAdd string string
  | ClickDelete string

fun load_event :: "(LoadRecord list \<Rightarrow> string) \<Rightarrow> LoadState \<Rightarrow> LoadEvent \<Rightarrow> LoadState" where
  "load_event js st (ChangeName v) = st\<lparr> newLoad := (newLoad st)\<lparr> name_opt := Some v \<rparr> \<rparr>"
| "load_event js st (ChangeCaliber v) = st\<lparr> newLoad := (newLoad st)\<lparr> caliber_opt := Some v \<rparr> \<rparr>"
| "load_event js st (ChangeBulletWeight v) =
     st\<lparr> newLoad := (newLoad st)\<lparr> bulletWeight_opt := Some (or_number (parseFloat v) (Num False 0)) \<rparr> \<rparr>"
| "load_event js st (ChangePowderType v) = st\<lparr> newLoad := (newLoad st)\<lparr> powderType_opt := Some v \<rparr> \<rparr>"
| "load_event js st (ChangePowderCharge v) =
     st\<lparr> newLoad := (newLoad st)\<lparr> powderCharge_opt := Some (or_number (parseFloat v) (Num False 0)) \<rparr> \<rparr>"
| "load_event js st (ChangePrimerType v) = st\<lparr> newLoad := (newLoad st)\<lparr> primerType_opt := Some v \<rparr> \<rparr>"
| "load_event js st (ClickAdd uuid today) = addLoad js uuid today st"
| "load_event js st (ClickDelete i) = deleteLoad js i st"

definition initial_loads :: "(string \<rightharpoonup> string) \<Rightarrow> LoadState" where
  "initial_loads store = \<lparr> loads = [], newLoad = empty_Partial, localStorage = store \<rparr>"

section \<open>Target analysis (component \<open>AnalysisTab\<close>)\<close>

record AnalysisState =
  selectedImage :: "string option"
  isAnalyzing :: bool
  result :: "AnalysisResult option"
  error :: "string option"
  bulletDiameter :: string
  expectedShots :: string

text \<open>
  The request sent to the model: the prompt is a fixed text around the two parameters,
  the image goes in as inline data.
\<close>

record GenerateContentRequest =
  model :: string
  prompt_bulletDiameter :: string
  prompt_expectedShots :: string
  mimeType :: string
  inlineData :: "string option"

text \<open>\<open>String.prototype.split\<close> with a one-character separator.\<close>

fun split :: "char \<Rightarrow> string \<Rightarrow> string list" where
  "split sep [] = [[]]"
| "split sep (c # cs) =
     (if c = sep then [] # split sep cs
      else (case split sep cs of [] \<Rightarrow> [[c]] | w # ws \<Rightarrow> (c # w) # ws))"

definition index1 :: "string list \<Rightarrow> string option" where
  "index1 xs = (case xs of a # b # r \<Rightarrow> Some b | _ \<Rightarrow> None)"

text \<open>
  \<open>analyzeImage\<close>.  The parameters are the host's part: \<open>generateContent\<close> returns the
  property \<open>text\<close> of the response (it may be undefined) or throws, and \<open>JSON.parse\<close>,
  at the type \<open>AnalysisResult\<close>, returns the parsed value or throws.  \<open>try_block\<close> is
  the body of the \<open>try\<close> statement up to the parsed data: it ends with the data or with
  what was thrown, and whatever was thrown is caught.
\<close>

definition try_block ::
  "(GenerateContentRequest \<Rightarrow> js_error + string option) \<Rightarrow> (string \<Rightarrow> js_error + AnalysisResult)
     \<Rightarrow> AnalysisState \<Rightarrow> js_error + AnalysisResult" where
  "try_block generateContent JSON_parse st =
     (let base64Data = index1 (split CHR '','' (the (selectedImage st)));
          response = generateContent \<lparr> model = ''gemini-3.1-pro-preview'',
                       prompt_bulletDiameter = bulletDiameter st,
                       prompt_expectedShots = expectedShots st,
                       mimeType = ''image/jpeg'', inlineData = base64Data \<rparr>
      in case response of
           Inl err \<Rightarrow> Inl err
         | Inr text \<Rightarrow> JSON_parse (or_string text ''{}''))"

definition analyzeImage ::
  "(GenerateContentRequest \<Rightarrow> js_error + string option) \<Rightarrow> (string \<Rightarrow> js_error + AnalysisResult)
     \<Rightarrow> AnalysisState \<Rightarrow> AnalysisState" where
  "analyzeImage generateContent JSON_parse st =
     (if \<not> truthy_string (selectedImage st) then st
      else
        let st = st\<lparr> isAnalyzing := True, error := None \<rparr>;
            st = (case try_block generateContent JSON_parse st of
                    Inr data \<Rightarrow> st\<lparr> result := Some data \<rparr>
                  | Inl err \<Rightarrow> st\<lparr> error := Some ''Fehler bei der Analyse. Bitte versuche es erneut.'' \<rparr>)
        in st\<lparr> isAnalyzing := False \<rparr>)"

text \<open>
  The page: both components' state and the browser's store.  \<open>analyzeImage\<close> is a
  handler of \<open>AnalysisTab\<close> and has only that component's state in scope.
\<close>

record Page =
  load_manager :: LoadState
  analysis_tab :: AnalysisState

definition Page_analyzeImage ::
  "(GenerateContentRequest \<Rightarrow> js_error + string option) \<Rightarrow> (string \<Rightarrow> js_error + AnalysisResult)
     \<Rightarrow> Page \<Rightarrow> Page" where
  "Page_analyzeImage generateContent JSON_parse page =
     page\<lparr> analysis_tab := analyzeImage generateContent JSON_parse (analysis_tab page) \<rparr>"

text \<open>Concrete values used to run the handlers.\<close>

definition example_record :: "string \<Rightarrow> LoadRecord" where
  "example_record i = \<lparr> id' = i, name = ''Target Load'', caliber = ''.308 Win'',
     bulletWeight = Num False 168, powderType = ''N140'', powderCharge' = Num False 42,
     primerType = ''CCI 200'', date = ''1.2.2024'' \<rparr>"

definition example_form :: "string \<Rightarrow> string \<Rightarrow> Partial_LoadRecord" where
  "example_form n c = empty_Partial\<lparr> name_opt := Some n, caliber_opt := Some c \<rparr>"

definition example_state :: "Partial_LoadRecord \<Rightarrow> LoadState" where
  "example_state form = \<lparr> loads = [example_record ''a'', example_record ''b'', example_record ''c''],
     newLoad = form, localStorage = Map.empty \<rparr>"

definition example_stringify :: "LoadRecord list \<Rightarrow> string" where
  "example_stringify xs = concat (map (\<lambda>l. id' l @ '','') xs)"

definition example_analysis :: AnalysisState where
  "example_analysis = \<lparr> selectedImage = Some ''data:image/jpeg;base64,AAAA'', isAnalyzing = False,
     result = None, error = None, bulletDiameter = ''7.62'', expectedShots = ''5'' \<rparr>"

definition example_page :: Page where
  "example_page = \<lparr> load_manager = example_state empty_Partial, analysis_tab = example_analysis \<rparr>"

definition example_events :: "LoadEvent list" where
  "example_events =
     [ChangeName ''Plinking'', ClickAdd ''u1'' ''3.11.2026'', ChangeCaliber ''9mm'',
      ClickAdd ''u2'' ''3.11.2026'', ChangeName ''Match'', ChangeCaliber ''.308 Win'',
      ClickAdd ''u3'' ''3.11.2026'', ChangeName ''Hunt'', ChangeCaliber ''.30-06'',
      ClickAdd ''u4'' ''3.11.2026'', ClickDelete ''u3'']"

definition example_parse_loads :: "string \<Rightarrow> js_error + LoadRecord list" where
  "example_parse_loads s = (if s = ''[]'' then Inr [] else Inl SyntaxError)"

definition example_generateContent :: "GenerateContentRequest \<Rightarrow> js_error + string option" where
  "example_generateContent req = Inr (Some ''{ groupSizeMm: '')"

definition example_quota :: "GenerateContentRequest \<Rightarrow> js_error + string option" where
  "example_quota req = Inl (ApiError ''429'')"

definition example_parse_result :: "string \<Rightarrow> js_error + AnalysisResult" where
  "example_parse_result s = Inl SyntaxError"

section \<open>The load log\<close>

lemma loads_saveLoads: "loads (saveLoads js xs st) = xs"
  by (simp add: saveLoads_def)

lemma localStorage_saveLoads:
  "localStorage (saveLoads js xs st) ''reloading_loads'' = Some (js xs)"
  by (simp add: saveLoads_def)

lemma length_filter_remove1:
  "length (filter (\<lambda>l. f l = i) xs) = 1 \<Longrightarrow> length (filter (\<lambda>l. f l \<noteq> i) xs) + 1 = length xs"
  using sum_length_filter_compl [of "\<lambda>l. f l = i" xs] by simp

text \<open>
  C8.  When exactly one record of the list has the given id, \<open>deleteLoad\<close> leaves a list
  with one entry fewer, in which no record has that id, and which is the old list with
  that one record taken out: the remaining records keep their relative order (the new
  list is a subsequence of the old one and holds every record with another id).  The
  new list is also what is written to the store.
\<close>

theorem deleteLoad_removes_exactly_one:
  assumes "length (filter (\<lambda>l. id' l = i) (loads st)) = 1"
  shows "length (loads (deleteLoad js i st)) + 1 = length (loads st)
       \<and> (\<forall>l \<in> set (loads (deleteLoad js i st)). id' l \<noteq> i)
       \<and> (\<exists>pre x post. loads st = pre @ x # post \<and> id' x = i
             \<and> loads (deleteLoad js i st) = pre @ post)
       \<and> localStorage (deleteLoad js i st) ''reloading_loads''
             = Some (js (loads (deleteLoad js i st)))"
proof -
  let ?xs = "loads st"
  have len: "length (loads (deleteLoad js i st)) + 1 = length ?xs"
    using length_filter_remove1 [OF assms] by (simp add: deleteLoad_def loads_saveLoads)
  have none: "\<forall>l \<in> set (loads (deleteLoad js i st)). id' l \<noteq> i"
    by (simp add: deleteLoad_def loads_saveLoads)
  from assms have "filter (\<lambda>l. id' l = i) ?xs \<noteq> []" by auto
  then have "\<exists>x \<in> set ?xs. id' x = i"
    by (metis (mono_tags, lifting) filter_False)
  then obtain pre x post where sp: "?xs = pre @ x # post" "\<forall>y \<in> set pre. id' y \<noteq> i"
      and \<open>id' x = i\<close>
    using split_list_first_prop [of ?xs "\<lambda>l. id' l = i"] by blast
  have "filter (\<lambda>l. id' l = i) post = []"
    using assms sp \<open>id' x = i\<close> by (auto simp: filter_empty_conv)
  hence "\<forall>y \<in> set post. id' y \<noteq> i" by (simp add: filter_empty_conv)
  with sp have "filter (\<lambda>l. id' l \<noteq> i) ?xs = pre @ post"
    using \<open>id' x = i\<close> by (simp add: filter_id_conv)
  hence ex: "\<exists>pre x post. ?xs = pre @ x # post \<and> id' x = i
            \<and> loads (deleteLoad js i st) = pre @ post"
    using sp(1) \<open>id' x = i\<close> unfolding deleteLoad_def loads_saveLoads by blast
  have sto: "localStorage (deleteLoad js i st) ''reloading_loads''
             = Some (js (loads (deleteLoad js i st)))"
    unfolding deleteLoad_def loads_saveLoads by (rule localStorage_saveLoads)
  from len none ex sto show ?thesis by (intro conjI)
qed

theorem deleteLoad_removes_exactly_one_witness:
  "length (filter (\<lambda>l. id' l = ''b'') (loads (example_state empty_Partial))) = 1
   \<and> loads (deleteLoad example_stringify ''b'' (example_state empty_Partial))
       = [example_record ''a'', example_record ''c'']
   \<and> localStorage (deleteLoad example_stringify ''b'' (example_state empty_Partial))
         ''reloading_loads'' = Some ''a,c,''"
proof -
  have h: "length (filter (\<lambda>l. id' l = ''b'') (loads (example_state empty_Partial))) = 1"
    by (simp add: example_state_def example_record_def)
  have "loads (deleteLoad example_stringify ''b'' (example_state empty_Partial))
       = [example_record ''a'', example_record ''c'']"
    by (simp add: deleteLoad_def saveLoads_def example_state_def example_record_def)
  with h deleteLoad_removes_exactly_one [OF h, of example_stringify] show ?thesis
    by (simp add: example_stringify_def example_record_def)
qed

text \<open>
  C7.  \<open>addLoad\<close> with an empty (or absent) name or caliber in the form changes nothing:
  the list, the form and the store stay as they were.  With both non-empty, the new list
  is the new record (carrying the form's name and caliber, the fresh id and the date)
  in front of the previous list, and the store holds the serialisation of that whole
  new list under the key \<open>reloading_loads\<close>.
\<close>

theorem addLoad_guard_and_prepend:
  "(name_opt (newLoad st) \<in> {None, Some []} \<or> caliber_opt (newLoad st) \<in> {None, Some []}
      \<longrightarrow> addLoad js uuid today st = st)
   \<and> (name_opt (newLoad st) \<notin> {None, Some []} \<and> caliber_opt (newLoad st) \<notin> {None, Some []}
      \<longrightarrow> (\<exists>r. loads (addLoad js uuid today st) = r # loads st
              \<and> id' r = uuid \<and> date r = today
              \<and> name_opt (newLoad st) = Some (name r)
              \<and> caliber_opt (newLoad st) = Some (caliber r))
          \<and> localStorage (addLoad js uuid today st) ''reloading_loads''
              = Some (js (loads (addLoad js uuid today st))))"
proof -
  have t: "truthy_string x \<longleftrightarrow> x \<notin> {None, Some []}" for x
    by (cases x) auto
  show ?thesis
    unfolding t [symmetric]
    by (cases "name_opt (newLoad st)"; cases "caliber_opt (newLoad st)")
       (simp_all add: addLoad_def saveLoads_def Let_def or_string_def)
qed

theorem addLoad_guard_and_prepend_witness:
  "addLoad example_stringify ''u'' ''3.11.2026'' (example_state (example_form ''Plinking'' []))
     = example_state (example_form ''Plinking'' [])
   \<and> map id' (loads (addLoad example_stringify ''u'' ''3.11.2026''
          (example_state (example_form ''Plinking'' ''9mm'')))) = [''u'', ''a'', ''b'', ''c'']
   \<and> localStorage (addLoad example_stringify ''u'' ''3.11.2026''
          (example_state (example_form ''Plinking'' ''9mm''))) ''reloading_loads''
       = Some ''u,a,b,c,''"
proof -
  have a: "caliber_opt (newLoad (example_state (example_form ''Plinking'' []))) \<in> {None, Some []}"
    by (simp add: example_state_def example_form_def)
  have b: "name_opt (newLoad (example_state (example_form ''Plinking'' ''9mm''))) \<notin> {None, Some []}"
          "caliber_opt (newLoad (example_state (example_form ''Plinking'' ''9mm''))) \<notin> {None, Some []}"
    by (simp_all add: example_state_def example_form_def)
  from addLoad_guard_and_prepend
         [of "example_state (example_form ''Plinking'' [])" example_stringify "''u''" "''3.11.2026''"] a
  have 1: "addLoad example_stringify ''u'' ''3.11.2026'' (example_state (example_form ''Plinking'' []))
     = example_state (example_form ''Plinking'' [])" by blast
  from addLoad_guard_and_prepend
         [of "example_state (example_form ''Plinking'' ''9mm'')" example_stringify "''u''" "''3.11.2026''"] b
  obtain r where r: "loads (addLoad example_stringify ''u'' ''3.11.2026''
            (example_state (example_form ''Plinking'' ''9mm'')))
          = r # loads (example_state (example_form ''Plinking'' ''9mm''))" "id' r = ''u''"
     and sto: "localStorage (addLoad example_stringify ''u'' ''3.11.2026''
          (example_state (example_form ''Plinking'' ''9mm''))) ''reloading_loads''
       = Some (example_stringify (loads (addLoad example_stringify ''u'' ''3.11.2026''
            (example_state (example_form ''Plinking'' ''9mm'')))))"
    by blast
  have 2: "map id' (loads (addLoad example_stringify ''u'' ''3.11.2026''
          (example_state (example_form ''Plinking'' ''9mm'')))) = [''u'', ''a'', ''b'', ''c'']"
    unfolding r by (simp add: r(2) example_state_def example_record_def)
  have 3: "localStorage (addLoad example_stringify ''u'' ''3.11.2026''
          (example_state (example_form ''Plinking'' ''9mm''))) ''reloading_loads''
       = Some ''u,a,b,c,''"
    unfolding sto r by (simp add: r(2) example_stringify_def example_state_def example_record_def)
  from 1 2 3 show ?thesis by (intro conjI)
qed

lemma loads_addLoad_cases:
  "loads (addLoad js u d st) = loads st
   \<or> (\<exists>r. loads (addLoad js u d st) = r # loads st \<and> name r \<noteq> [] \<and> caliber r \<noteq> [])"
  by (cases "name_opt (newLoad st)"; cases "caliber_opt (newLoad st)")
     (simp_all add: addLoad_def saveLoads_def Let_def or_string_def)

lemma load_event_invariant:
  assumes "\<forall>l \<in> set (loads st). name l \<noteq> [] \<and> caliber l \<noteq> []"
  shows "\<forall>l \<in> set (loads (load_event js st ev)). name l \<noteq> [] \<and> caliber l \<noteq> []"
proof (cases ev)
  case (ClickAdd u d)
  with assms loads_addLoad_cases [of js u d st] show ?thesis by auto
next
  case (ClickDelete i)
  with assms show ?thesis by (simp add: deleteLoad_def loads_saveLoads)
qed (use assms in simp_all)

lemma foldl_load_event_invariant:
  "\<forall>l \<in> set (loads st). name l \<noteq> [] \<and> caliber l \<noteq> [] \<Longrightarrow>
   \<forall>l \<in> set (loads (foldl (load_event js) st evs)). name l \<noteq> [] \<and> caliber l \<noteq> []"
proof (induction evs arbitrary: st)
  case Nil
  then show ?case by simp
next
  case (Cons ev evs)
  from Cons.IH [OF load_event_invariant [OF Cons.prems]] show ?case by simp
qed

text \<open>
  C10.  From the empty list, whatever the user does on the load manager tab (typing into
  the six fields of the form, saving, deleting), every record of the list has a
  non-empty name and a non-empty caliber.
\<close>

theorem load_log_names_nonempty:
  "\<forall>l \<in> set (loads (foldl (load_event js) (initial_loads store) evs)).
      name l \<noteq> [] \<and> caliber l \<noteq> []"
  by (rule foldl_load_event_invariant) (simp add: initial_loads_def)

theorem load_log_names_nonempty_witness:
  "map id' (loads (foldl (load_event example_stringify) (initial_loads Map.empty) example_events))
     = [''u4'', ''u2'']
   \<and> name (hd (loads (foldl (load_event example_stringify) (initial_loads Map.empty) example_events)))
       \<noteq> []
   \<and> caliber (hd (loads (foldl (load_event example_stringify) (initial_loads Map.empty) example_events)))
       \<noteq> []"
proof -
  let ?xs = "loads (foldl (load_event example_stringify) (initial_loads Map.empty) example_events)"
  have ids: "map id' ?xs = [''u4'', ''u2'']"
    by (simp add: example_events_def initial_loads_def addLoad_def deleteLoad_def saveLoads_def
          empty_Partial_def or_string_def Let_def)
  hence "?xs \<noteq> []" by auto
  hence "hd ?xs \<in> set ?xs" by simp
  with load_log_names_nonempty [of example_stringify Map.empty example_events]
  have "name (hd ?xs) \<noteq> [] \<and> caliber (hd ?xs) \<noteq> []" by blast
  with ids show ?thesis by blast
qed

section \<open>The stored list at start-up\<close>

text \<open>
  With no value under the key, or the empty string, the effect leaves the list as it is
  (the empty list at start-up) and throws nothing.
\<close>

lemma load_effect_absent:
  "localStorage st ''reloading_loads'' \<in> {None, Some []} \<Longrightarrow> load_effect JSON_parse st = Inr st"
  by (auto simp: load_effect_def)

text \<open>
  C3.  The effect does not recover from text that is not JSON: when the stored value is
  a non-empty string on which \<open>JSON.parse\<close> throws, the exception leaves the effect, and
  no state is returned.
\<close>

theorem load_effect_malformed_throws:
  assumes "localStorage st ''reloading_loads'' = Some s" and "s \<noteq> []"
      and "JSON_parse s = Inl e"
  shows "load_effect JSON_parse st = Inl e"
  using assms by (simp add: load_effect_def)

theorem load_effect_malformed_throws_witness:
  "load_effect example_parse_loads ((initial_loads Map.empty)\<lparr> localStorage := [''reloading_loads'' \<mapsto> ''{''] \<rparr>)
     = Inl SyntaxError"
proof -
  let ?st = "(initial_loads Map.empty)\<lparr> localStorage := [''reloading_loads'' \<mapsto> ''{''] \<rparr>"
  have 1: "localStorage ?st ''reloading_loads'' = Some ''{''" by simp
  have 2: "''{'' \<noteq> []" by simp
  have 3: "example_parse_loads ''{'' = Inl SyntaxError" by (simp add: example_parse_loads_def)
  from load_effect_malformed_throws [of ?st "''{''" example_parse_loads SyntaxError] 1 2 3
  show ?thesis by blast
qed

section \<open>The cost engine\<close>

text \<open>
  C1.  For every \<open>CostInputs\<close> value the fields of the result are the source's formulas,
  with the operators of JavaScript numbers and the constant \<open>15432.3584\<close> as a binary64
  value; \<open>total\<close> is the sum of the four component fields, added from left to right, and
  \<open>per100\<close> is \<open>total\<close> times 100.
\<close>

theorem calculatedCosts_formulas:
  "powder (calculatedCosts c)
     = ((powderPrice c / powderWeight c) / to_number False (154323584 / 10 ^ 4)) * powderCharge c
   \<and> primer (calculatedCosts c) = primerPrice c / primerCount c
   \<and> bullet (calculatedCosts c) = bulletPrice c / bulletCount c
   \<and> brass (calculatedCosts c) = (brassPrice c / brassCount c) / brassLife c
   \<and> total (calculatedCosts c)
       = powder (calculatedCosts c) + primer (calculatedCosts c) + bullet (calculatedCosts c)
         + brass (calculatedCosts c)
   \<and> per100 (calculatedCosts c) = total (calculatedCosts c) * Num False 100"
  by (simp add: calculatedCosts_def Let_def GRAINS_PER_KG_def)

text \<open>
  C2.  A string on which \<open>parseFloat\<close> yields NaN is stored as 0 by the handlers of nine
  fields, and as 1 by the handler of \<open>brassLife\<close>.
\<close>

theorem onChange_NaN_fallback:
  assumes "parseFloat v = NaN"
  shows "onChange_powderPrice v c = c\<lparr> powderPrice := Num False 0 \<rparr>
       \<and> onChange_powderWeight v c = c\<lparr> powderWeight := Num False 0 \<rparr>
       \<and> onChange_powderCharge v c = c\<lparr> powderCharge := Num False 0 \<rparr>
       \<and> onChange_primerPrice v c = c\<lparr> primerPrice := Num False 0 \<rparr>
       \<and> onChange_primerCount v c = c\<lparr> primerCount := Num False 0 \<rparr>
       \<and> onChange_bulletPrice v c = c\<lparr> bulletPrice := Num False 0 \<rparr>
       \<and> onChange_bulletCount v c = c\<lparr> bulletCount := Num False 0 \<rparr>
       \<and> onChange_brassPrice v c = c\<lparr> brassPrice := Num False 0 \<rparr>
       \<and> onChange_brassCount v c = c\<lparr> brassCount := Num False 0 \<rparr>
       \<and> onChange_brassLife v c = c\<lparr> brassLife := Num False 1 \<rparr>"
  using assms
  by (simp add: onChange_powderPrice_def onChange_powderWeight_def onChange_powderCharge_def
        onChange_primerPrice_def onChange_primerCount_def onChange_bulletPrice_def
        onChange_bulletCount_def onChange_brassPrice_def onChange_brassCount_def
        onChange_brassLife_def or_number_def)

lemma parseFloat_abc: "parseFloat ''abc'' = NaN"
  by code_simp

lemma parseFloat_empty: "parseFloat [] = NaN"
  by code_simp

theorem onChange_NaN_fallback_witness:
  "parseFloat ''abc'' = NaN
   \<and> powderWeight (onChange_powderWeight ''abc'' initial_costs) = Num False 0
   \<and> brassLife (onChange_brassLife ''abc'' initial_costs) = Num False 1"
proof -
  from onChange_NaN_fallback [OF parseFloat_abc, of initial_costs]
  have "onChange_powderWeight ''abc'' initial_costs = initial_costs\<lparr> powderWeight := Num False 0 \<rparr>"
    and "onChange_brassLife ''abc'' initial_costs = initial_costs\<lparr> brassLife := Num False 1 \<rparr>"
    by blast+
  with parseFloat_abc show ?thesis by simp
qed

text \<open>
  The claim as stated fails: the empty string does not parse as a number, and the
  handler of \<open>brassLife\<close> stores 1 for it, not 0; the string \<open>Infinity\<close> does not parse as
  a finite number, and the handler of \<open>powderPrice\<close> stores the infinity, not 0.
\<close>

theorem onChange_zero_counterexample:
  "parseFloat [] = NaN
   \<and> brassLife (onChange_brassLife [] initial_costs) = Num False 1
   \<and> brassLife (onChange_brassLife [] initial_costs) \<noteq> Num False 0
   \<and> parseFloat ''Infinity'' = Infinity False
   \<and> powderPrice (onChange_powderPrice ''Infinity'' initial_costs) = Infinity False
   \<and> powderPrice (onChange_powderPrice ''Infinity'' initial_costs) \<noteq> Num False 0"
proof -
  have i: "parseFloat ''Infinity'' = Infinity False" by code_simp
  show ?thesis
    by (simp add: parseFloat_empty i onChange_brassLife_def onChange_powderPrice_def or_number_def)
qed

section \<open>Binary64 rounding and decimal strings\<close>

text \<open>The rounding error of \<open>binary64\<close>: half a unit in the last place.\<close>

lemma pow2_powi: "pow2 e = 2 powi e"
  by (simp add: pow2_def power_int_def inverse_eq_divide power_one_over)

lemma pow2_pos: "0 < pow2 e"
  by (simp add: pow2_powi)

lemma pow2_add: "pow2 (a + b) = pow2 a * pow2 b"
  by (simp add: pow2_powi power_int_add)

lemma pow2_diff: "pow2 (a - b) = pow2 a / pow2 b"
  by (simp add: pow2_powi power_int_diff)

lemma pow2_nat: "pow2 (int n) = 2 ^ n"
  by (simp add: pow2_def)

lemma round_half_even_error: "\<bar>of_int (round_half_even r) - r\<bar> \<le> 1 / 2"
  unfolding round_half_even_def Let_def
  by (auto simp: abs_if) linarith+

lemma round_half_even_nonneg: "0 \<le> r \<Longrightarrow> 0 \<le> round_half_even r"
  unfolding round_half_even_def Let_def by auto

lemma ilog2_le:
  assumes "0 < q"
  shows "pow2 (ilog2 q) \<le> q"
proof -
  obtain a b where ab: "quotient_of q = (a, b)" by force
  have b: "0 < b" using quotient_of_denom_pos [OF ab] .
  have q: "q = of_int a / of_int b" using quotient_of_div [OF ab] .
  have a: "0 < a" using assms b unfolding q by (simp add: zero_less_divide_iff)
  let ?k = "bitlen a - bitlen b"
  show ?thesis
  proof (cases "pow2 ?k \<le> q")
    case True
    then show ?thesis by (simp add: ilog2_def ab)
  next
    case False
    have la: "(2::int) ^ nat (bitlen a - 1) \<le> a" using bitlen_bounds [OF a] by simp
    have ub: "b < 2 ^ nat (bitlen b)" using bitlen_bounds [OF b] by simp
    have ba: "1 \<le> bitlen a" using a by (simp add: bitlen_alt_def)
    have bb: "0 \<le> bitlen b" by (rule bitlen_nonneg)
    have 1: "pow2 (bitlen a - 1) \<le> of_int a"
    proof -
      have "pow2 (bitlen a - 1) = of_int (2 ^ nat (bitlen a - 1))"
        using ba by (simp add: pow2_def)
      also have "\<dots> \<le> of_int a" using la by (simp only: of_int_le_iff)
      finally show ?thesis .
    qed
    have 2: "of_int b \<le> pow2 (bitlen b)"
    proof -
      have "(of_int b :: rat) \<le> of_int (2 ^ nat (bitlen b))" using ub by (simp only: of_int_le_iff)
      also have "\<dots> = pow2 (bitlen b)" using bb by (simp add: pow2_def)
      finally show ?thesis .
    qed
    have "pow2 (?k - 1) = pow2 (bitlen a - 1) / pow2 (bitlen b)"
      using pow2_diff [of "bitlen a - 1" "bitlen b"] by (simp add: algebra_simps)
    also have "\<dots> \<le> of_int a / of_int b"
      using 1 2 b pow2_pos [of "bitlen b"] pow2_pos [of "bitlen a - 1"]
      by (intro frac_le) auto
    finally have "pow2 (?k - 1) \<le> q" by (simp only: q)
    moreover have "ilog2 q = ?k - 1" using False by (simp add: ilog2_def ab)
    ultimately show ?thesis by simp
  qed
qed

lemma binary64_nonneg:
  assumes "0 \<le> q"
  shows "0 \<le> binary64 q"
proof (cases "q = 0")
  case True
  then show ?thesis by (simp add: binary64_def)
next
  case False
  define e where "e = max (ilog2 q - 52) (- 1074)"
  have "0 \<le> q / pow2 e" using assms pow2_pos [of e] by simp
  hence "0 \<le> round_half_even (q / pow2 e)" by (rule round_half_even_nonneg)
  hence "0 \<le> (of_int (round_half_even (q / pow2 e)) :: rat) * pow2 e"
    using pow2_pos [of e] by simp
  thus ?thesis using False by (simp add: binary64_def e_def Let_def)
qed

lemma binary64_error:
  assumes "0 \<le> q"
  shows "\<bar>binary64 q - q\<bar> \<le> q / 2 ^ 53 + 1 / 2 ^ 1075"
proof (cases "q = 0")
  case True
  then show ?thesis by (simp add: binary64_def)
next
  case False
  with assms have qp: "0 < q" by simp
  define e where "e = max (ilog2 q - 52) (- 1074)"
  have pe: "0 < pow2 e" by (rule pow2_pos)
  have b: "binary64 q = of_int (round_half_even (q / pow2 e)) * pow2 e"
    using False by (simp add: binary64_def e_def Let_def)
  have "\<bar>binary64 q - q\<bar> = \<bar>of_int (round_half_even (q / pow2 e)) - q / pow2 e\<bar> * pow2 e"
  proof -
    have "of_int (round_half_even (q / pow2 e)) * pow2 e - q
        = (of_int (round_half_even (q / pow2 e)) - q / pow2 e) * pow2 e"
      using pe by (simp add: left_diff_distrib)
    thus ?thesis using pe unfolding b by (simp add: abs_mult abs_of_pos)
  qed
  also have "\<dots> \<le> 1 / 2 * pow2 e"
    using round_half_even_error [of "q / pow2 e"] pe by (intro mult_right_mono) auto
  finally have err: "\<bar>binary64 q - q\<bar> \<le> pow2 e / 2" by simp
  have "pow2 e \<le> q / 2 ^ 52 + 1 / 2 ^ 1074"
  proof (cases "ilog2 q - 52 \<le> - 1074")
    case True
    hence "e = - 1074" by (simp add: e_def)
    hence "pow2 e = 1 / 2 ^ 1074" by (simp add: pow2_def)
    thus ?thesis using qp by simp
  next
    case False
    hence "e = ilog2 q - 52" by (simp add: e_def)
    hence "pow2 e = pow2 (ilog2 q) / 2 ^ 52"
      using pow2_diff [of "ilog2 q" 52] by (simp add: pow2_def)
    also have "\<dots> \<le> q / 2 ^ 52" using ilog2_le [OF qp] by (simp add: divide_right_mono)
    finally show ?thesis by simp
  qed
  with err show ?thesis by simp
qed

text \<open>Decimal digits: printing, reading, and reading what \<open>toFixed\<close> printed.\<close>

lemma is_digit_digit_char: "0 \<le> k \<Longrightarrow> k < 10 \<Longrightarrow> is_digit (digit_char k)"
  by (simp add: is_digit_def digit_char_def)

lemma digit_val_digit_char: "0 \<le> k \<Longrightarrow> k < 10 \<Longrightarrow> digit_val (digit_char k) = k"
  by (simp add: digit_val_def digit_char_def)

lemma is_digit_not_special:
  assumes "is_digit c"
  shows "\<not> is_whitespace c" "c \<noteq> CHR ''+''" "c \<noteq> CHR ''-''" "c \<noteq> CHR ''.''" "c \<noteq> CHR ''I''"
  using assms by (auto simp: is_digit_def is_whitespace_def)

lemma not_is_digit_point: "\<not> is_digit CHR ''.''"
  by (simp add: is_digit_def)

lemma is_digit_zero: "is_digit CHR ''0''" and digit_val_zero: "digit_val CHR ''0'' = 0"
  by (simp_all add: is_digit_def digit_val_def)

lemma digits_of_digits: "0 \<le> n \<Longrightarrow> \<forall>c \<in> set (digits_of n). is_digit c"
proof (induction n rule: digits_of.induct)
  case (1 n)
  show ?case
  proof (cases "n < 10")
    case True
    with 1 show ?thesis by (subst digits_of.simps) (simp add: is_digit_digit_char)
  next
    case False
    with 1 have "\<forall>c \<in> set (digits_of (n div 10)). is_digit c" by simp
    moreover have "is_digit (digit_char (n mod 10))" by (simp add: is_digit_digit_char)
    ultimately show ?thesis using False by (subst digits_of.simps) simp
  qed
qed

lemma digits_of_nonempty: "digits_of n \<noteq> []"
  by (subst digits_of.simps) simp

lemma digits_val_snoc: "digits_val (xs @ [c]) = 10 * digits_val xs + digit_val c"
  by (simp add: digits_val_def)

lemma digits_val_Nil: "digits_val [] = 0"
  by (simp add: digits_val_def)

lemma digits_val_append:
  "digits_val (xs @ ys) = digits_val xs * 10 ^ length ys + digits_val ys"
proof (induction ys rule: rev_induct)
  case Nil
  then show ?case by (simp add: digits_val_Nil)
next
  case (snoc y ys)
  have "digits_val (xs @ ys @ [y]) = 10 * digits_val (xs @ ys) + digit_val y"
    using digits_val_snoc [of "xs @ ys" y] by simp
  also have "\<dots> = digits_val xs * 10 ^ length (ys @ [y]) + (10 * digits_val ys + digit_val y)"
    by (simp add: snoc.IH algebra_simps)
  finally show ?case by (simp add: digits_val_snoc)
qed

lemma digits_val_digits_of: "0 \<le> n \<Longrightarrow> digits_val (digits_of n) = n"
proof (induction n rule: digits_of.induct)
  case (1 n)
  show ?case
  proof (cases "n < 10")
    case True
    with 1 show ?thesis
      by (subst digits_of.simps) (simp add: digits_val_def digit_val_digit_char)
  next
    case False
    with 1 have "digits_val (digits_of (n div 10)) = n div 10" by simp
    thus ?thesis using False
      by (subst digits_of.simps) (simp add: digits_val_snoc digit_val_digit_char)
  qed
qed

lemma digits_val_zeros: "digits_val (replicate k CHR ''0'') = 0"
  by (induction k) (simp_all add: digits_val_def digit_val_zero)

lemma takeWhile_all_then_stop:
  assumes "\<forall>c \<in> set xs. P c" and "\<not> P y"
  shows "takeWhile P (xs @ y # ys) = xs" and "dropWhile P (xs @ y # ys) = y # ys"
  using assms by (induction xs) auto

lemma StrUnsignedDecimalLiteral_fixed:
  assumes ip: "\<forall>c \<in> set ip. is_digit c" "ip \<noteq> []" and fp: "\<forall>c \<in> set fp. is_digit c"
  shows "StrUnsignedDecimalLiteral s (ip @ CHR ''.'' # fp)
       = to_number s (of_int (digits_val ip) + of_int (digits_val fp) / 10 ^ length fp)"
proof -
  obtain d ds where d: "ip = d # ds" using ip(2) by (cases ip) auto
  with ip(1) have "is_digit d" by simp
  hence "d \<noteq> CHR ''I''" by (rule is_digit_not_special)
  hence ninf: "take 8 (ip @ CHR ''.'' # fp) \<noteq> ''Infinity''" by (simp add: d)
  have t: "takeWhile is_digit (ip @ CHR ''.'' # fp) = ip"
    and dr: "dropWhile is_digit (ip @ CHR ''.'' # fp) = CHR ''.'' # fp"
    using takeWhile_all_then_stop [OF ip(1) not_is_digit_point] by auto
  have tf: "takeWhile is_digit fp = fp" and df: "dropWhile is_digit fp = []"
    using fp by (simp_all add: takeWhile_eq_all_conv)
  show ?thesis
    unfolding StrUnsignedDecimalLiteral_def
    by (simp add: ninf t dr tf df Let_def ip(2) exponent_part_def pow10_def del: take_append)
qed

text \<open>
  Below \<open>10 ^ 21\<close> the string of \<open>toFixed\<close> is a sign, digits, a point and \<open>f\<close> digits,
  whose decimal value is the rounded magnitude.
\<close>

lemma toFixed_split:
  assumes "0 \<le> q" "q < 10 ^ 21" "0 < f"
  shows "\<exists>ip fp. toFixed f (Num s q) = (if s \<and> q \<noteq> 0 then ''-'' else []) @ ip @ CHR ''.'' # fp
           \<and> (\<forall>c \<in> set ip. is_digit c) \<and> ip \<noteq> [] \<and> (\<forall>c \<in> set fp. is_digit c) \<and> length fp = f
           \<and> digits_val ip * 10 ^ f + digits_val fp = \<lfloor>q * 10 ^ f + 1 / 2\<rfloor>"
proof -
  define n where "n = \<lfloor>q * 10 ^ f + 1 / 2\<rfloor>"
  have n0: "0 \<le> n" using assms(1) by (simp add: n_def)
  define m where "m = (if length (digits_of n) \<le> f
       then replicate (f + 1 - length (digits_of n)) CHR ''0'' @ digits_of n else digits_of n)"
  have md: "\<forall>c \<in> set m. is_digit c"
    using digits_of_digits [OF n0] by (auto simp: m_def is_digit_zero)
  have mv: "digits_val m = n"
    by (simp add: m_def digits_val_append digits_val_zeros digits_val_digits_of [OF n0])
  have ml: "f < length m" by (auto simp: m_def)
  define ip where "ip = take (length m - f) m"
  define fp where "fp = drop (length m - f) m"
  have m: "m = ip @ fp" by (simp add: ip_def fp_def)
  have lf: "length fp = f" using ml by (simp add: fp_def)
  have ipn: "ip \<noteq> []" using ml by (auto simp: ip_def)
  have tf: "toFixed f (Num s q) = (if s \<and> q \<noteq> 0 then ''-'' else []) @ ip @ CHR ''.'' # fp"
    using assms(2,3) by (simp add: toFixed_def Let_def n_def [symmetric] m_def [symmetric] ip_def fp_def)
  have "digits_val ip * 10 ^ f + digits_val fp = n"
    using mv digits_val_append [of ip fp] by (simp add: m lf)
  with tf md ipn lf show ?thesis unfolding m n_def by auto
qed

lemma parseFloat_toFixed:
  assumes "0 \<le> q" "q < 10 ^ 21" "0 < f"
  shows "parseFloat (toFixed f (Num s q))
       = to_number (s \<and> q \<noteq> 0) (of_int \<lfloor>q * 10 ^ f + 1 / 2\<rfloor> / 10 ^ f)"
proof -
  from toFixed_split [OF assms, of s] obtain ip fp where
    tf: "toFixed f (Num s q) = (if s \<and> q \<noteq> 0 then ''-'' else []) @ ip @ CHR ''.'' # fp"
    and ip: "\<forall>c \<in> set ip. is_digit c" "ip \<noteq> []" and fp: "\<forall>c \<in> set fp. is_digit c"
    and lf: "length fp = f"
    and v: "digits_val ip * 10 ^ f + digits_val fp = \<lfloor>q * 10 ^ f + 1 / 2\<rfloor>"
    by blast
  have val: "(of_int (digits_val ip) + of_int (digits_val fp) / 10 ^ length fp :: rat)
           = of_int \<lfloor>q * 10 ^ f + 1 / 2\<rfloor> / 10 ^ f"
    unfolding v [symmetric] lf by (simp add: add_divide_distrib)
  obtain d ds where d: "ip = d # ds" using ip(2) by (cases ip) auto
  with ip(1) have dd: "is_digit d" by simp
  note sp = is_digit_not_special [OF dd]
  show ?thesis
  proof (cases "s \<and> q \<noteq> 0")
    case True
    have "\<not> is_whitespace CHR ''-''" by (simp add: is_whitespace_def)
    hence "parseFloat (CHR ''-'' # ip @ CHR ''.'' # fp) = StrUnsignedDecimalLiteral True (ip @ CHR ''.'' # fp)"
      by (simp add: parseFloat_def)
    thus ?thesis using True tf StrUnsignedDecimalLiteral_fixed [OF ip fp, of True] val by simp
  next
    case False
    have "parseFloat (ip @ CHR ''.'' # fp) = StrUnsignedDecimalLiteral False (ip @ CHR ''.'' # fp)"
      using sp by (simp add: parseFloat_def d)
    thus ?thesis using False tf StrUnsignedDecimalLiteral_fixed [OF ip fp, of False] val by auto
  qed
qed


text \<open>
  Evaluating the rounding at a given value: the exponent and the significand are
  supplied and checked by comparison, and the floor of \<open>toFixed\<close> likewise.
\<close>

lemma ilog2_upper:
  assumes "0 < q"
  shows "q < pow2 (ilog2 q + 1)"
proof -
  obtain a b where ab: "quotient_of q = (a, b)" by force
  have b: "0 < b" using quotient_of_denom_pos [OF ab] .
  have q: "q = of_int a / of_int b" using quotient_of_div [OF ab] .
  have a: "0 < a" using assms b unfolding q by (simp add: zero_less_divide_iff)
  let ?k = "bitlen a - bitlen b"
  show ?thesis
  proof (cases "pow2 ?k \<le> q")
    case False
    then show ?thesis by (simp add: ilog2_def ab)
  next
    case True
    have ua: "a < 2 ^ nat (bitlen a)" using bitlen_bounds [OF a] by simp
    have lb: "(2::int) ^ nat (bitlen b - 1) \<le> b" using bitlen_bounds [OF b] by simp
    have ba: "0 \<le> bitlen a" by (rule bitlen_nonneg)
    have bb: "1 \<le> bitlen b" using b by (simp add: bitlen_alt_def)
    have 1: "of_int a < pow2 (bitlen a)"
    proof -
      have "(of_int a :: rat) < of_int (2 ^ nat (bitlen a))" using ua by (simp only: of_int_less_iff)
      also have "\<dots> = pow2 (bitlen a)" using ba by (simp add: pow2_def)
      finally show ?thesis .
    qed
    have 2: "pow2 (bitlen b - 1) \<le> of_int b"
    proof -
      have "pow2 (bitlen b - 1) = of_int (2 ^ nat (bitlen b - 1))" using bb by (simp add: pow2_def)
      also have "\<dots> \<le> of_int b" using lb by (simp only: of_int_le_iff)
      finally show ?thesis .
    qed
    have "of_int a / of_int b < pow2 (bitlen a) / pow2 (bitlen b - 1)"
      using 1 2 a b pow2_pos [of "bitlen b - 1"]
      by (intro frac_less) auto
    also have "\<dots> = pow2 (?k + 1)"
      using pow2_diff [of "bitlen a" "bitlen b - 1"] by (simp add: algebra_simps)
    finally have "q < pow2 (?k + 1)" by (simp only: q)
    moreover have "ilog2 q = ?k" using True by (simp add: ilog2_def ab)
    ultimately show ?thesis by simp
  qed
qed

lemma pow2_mono: "i \<le> j \<Longrightarrow> pow2 i \<le> pow2 j"
  by (simp add: pow2_powi power_int_increasing)

lemma ilog2_eqI:
  assumes "pow2 i \<le> q" "q < pow2 (i + 1)"
  shows "ilog2 q = i"
proof -
  have q: "0 < q" using assms(1) pow2_pos [of i] by linarith
  have "\<not> ilog2 q < i"
  proof
    assume "ilog2 q < i"
    hence "pow2 (ilog2 q + 1) \<le> pow2 i" by (intro pow2_mono) simp
    with ilog2_upper [OF q] assms(1) show False by linarith
  qed
  moreover have "\<not> i < ilog2 q"
  proof
    assume "i < ilog2 q"
    hence "pow2 (i + 1) \<le> pow2 (ilog2 q)" by (intro pow2_mono) simp
    with ilog2_le [OF q] assms(2) show False by linarith
  qed
  ultimately show ?thesis by simp
qed

lemma round_half_even_eqI:
  assumes "\<bar>of_int m - r\<bar> < 1 / 2"
  shows "round_half_even r = m"
proof -
  have e: "\<bar>of_int (round_half_even r) - r\<bar> \<le> 1 / 2" by (rule round_half_even_error)
  have "\<bar>(of_int (round_half_even r) :: rat) - of_int m\<bar> < 1" using e assms by linarith
  hence "\<bar>(of_int (round_half_even r - m) :: rat)\<bar> < 1" by simp
  hence "\<bar>round_half_even r - m\<bar> < 1" by (simp only: of_int_abs [symmetric] of_int_less_1_iff)
  thus ?thesis by simp
qed

lemma binary64_eqI:
  assumes "pow2 (e + 52) \<le> q" "q < pow2 (e + 53)" "- 1074 \<le> e"
      and "\<bar>of_int m - q / pow2 e\<bar> < 1 / 2"
  shows "binary64 q = of_int m * pow2 e"
proof -
  have q: "0 < q" using assms(1) pow2_pos [of "e + 52"] by linarith
  have "ilog2 q = e + 52" using assms(1,2) by (intro ilog2_eqI) (simp_all add: add.commute)
  hence "max (ilog2 q - 52) (- 1074) = e" using assms(3) by simp
  thus ?thesis using q round_half_even_eqI [OF assms(4)] by (simp add: binary64_def Let_def)
qed

lemma to_number_eqI:
  assumes "pow2 (e + 52) \<le> q" "q < pow2 (e + 53)" "- 1074 \<le> e" "e \<le> 970"
      and "\<bar>of_int m - q / pow2 e\<bar> < 1 / 2"
  shows "to_number s q = Num s (of_int m * pow2 e)"
proof -
  have b: "binary64 q = of_int m * pow2 e" by (rule binary64_eqI [OF assms(1,2,3,5)])
  have pe: "0 < pow2 e" by (rule pow2_pos)
  have "of_int m - q / pow2 e < 1 / 2" using assms(5) by linarith
  hence "of_int m * pow2 e < q + pow2 e / 2" using pe by (simp add: field_simps)
  also have "\<dots> < pow2 (e + 53) + pow2 (e + 53)"
    using assms(2) pow2_mono [of e "e + 53"] pe by linarith
  also have "\<dots> = pow2 (e + 54)"
  proof -
    have "e + 54 = (e + 53) + 1" by simp
    hence "pow2 (e + 54) = pow2 (e + 53) * pow2 1" by (simp only: pow2_add)
    moreover have "pow2 1 = 2" by (simp add: pow2_def)
    ultimately show ?thesis by simp
  qed
  also have "\<dots> \<le> pow2 1024" using assms(4) by (intro pow2_mono) simp
  finally have "of_int m * pow2 e < 2 ^ 1024" by (simp add: pow2_def)
  thus ?thesis by (simp add: to_number_def b Let_def)
qed

lemma digits_of_small: "n < 10 \<Longrightarrow> digits_of n = [digit_char n]"
  by (subst digits_of.simps) simp

lemma digits_of_large: "\<not> n < 10 \<Longrightarrow> digits_of n = digits_of (n div 10) @ [digit_char (n mod 10)]"
  by (subst digits_of.simps) simp

lemma floor_half_eqI:
  fixes r :: rat
  assumes "of_int n \<le> r + 1 / 2" "r + 1 / 2 < of_int n + 1"
  shows "\<lfloor>r + 1 / 2\<rfloor> = n"
  using assms by (rule floor_unique)

lemma toFixed_eqI:
  assumes "of_int n \<le> q * 10 ^ f + 1 / 2" "q * 10 ^ f + 1 / 2 < of_int n + 1" "q < 10 ^ 21" "0 < f"
  shows "toFixed f (Num s q)
       = (if s \<and> q \<noteq> 0 then ''-'' else []) @
         (let m = digits_of n;
              m = (if length m \<le> f then replicate (f + 1 - length m) CHR ''0'' @ m else m)
          in take (length m - f) m @ ''.'' @ drop (length m - f) m)"
  using assms(3,4) floor_half_eqI [OF assms(1,2)] by (simp add: toFixed_def Let_def)

lemma rounded_eqI:
  assumes "of_int n \<le> q * 10 ^ f + 1 / 2" "q * 10 ^ f + 1 / 2 < of_int n + 1"
  shows "rounded f q = of_int n / 10 ^ f"
  using floor_half_eqI [OF assms] by (simp add: rounded_def)

lemma GRAINS_PER_GRAM_value: "GRAINS_PER_GRAM = Num False (8687645442460993 / 562949953421312)"
  unfolding GRAINS_PER_GRAM_def
  using to_number_eqI [of "- 49" "154323584 / 10 ^ 7" 8687645442460993 False]
  by (simp add: pow2_def)

lemma parseFloat_plain:
  assumes "\<forall>c \<in> set ip. is_digit c" "ip \<noteq> []" "\<forall>c \<in> set fp. is_digit c"
  shows "parseFloat (ip @ CHR ''.'' # fp)
       = to_number False (of_int (digits_val ip) + of_int (digits_val fp) / 10 ^ length fp)"
proof -
  obtain d ds where d: "ip = d # ds" using assms(2) by (cases ip) auto
  with assms(1) have "is_digit d" by simp
  note sp = is_digit_not_special [OF this]
  have "parseFloat (ip @ CHR ''.'' # fp) = StrUnsignedDecimalLiteral False (ip @ CHR ''.'' # fp)"
    using sp by (simp add: parseFloat_def d)
  thus ?thesis using StrUnsignedDecimalLiteral_fixed [OF assms, of False] by simp
qed

lemma digit_char_simps:
  "digit_char 0 = CHR ''0''" "digit_char 1 = CHR ''1''" "digit_char 2 = CHR ''2''"
  "digit_char 3 = CHR ''3''" "digit_char 4 = CHR ''4''" "digit_char 5 = CHR ''5''"
  "digit_char 6 = CHR ''6''" "digit_char 7 = CHR ''7''" "digit_char 8 = CHR ''8''"
  "digit_char 9 = CHR ''9''"
  by code_simp+


lemma to_number_finite:
  assumes "0 \<le> q" "q \<le> 10 ^ 308"
  shows "to_number s q = Num s (binary64 q)"
proof -
  have e: "\<bar>binary64 q - q\<bar> \<le> q / 2 ^ 53 + 1 / 2 ^ 1075" by (rule binary64_error [OF assms(1)])
  have "binary64 q \<le> q + q / 2 ^ 53 + 1 / 2 ^ 1075" using e by linarith
  also have "\<dots> \<le> 10 ^ 308 + 10 ^ 308 / 2 ^ 53 + 1 / 2 ^ 1075" using assms(2) by simp
  also have "\<dots> < 2 ^ 1024" by simp
  finally show ?thesis by (simp add: to_number_def Let_def)
qed

lemma to_number_overflow:
  assumes "2 ^ 1025 \<le> q"
  shows "to_number s q = Infinity s"
proof -
  have q: "0 \<le> q" using assms by (rule order_trans [rotated]) simp
  have e: "\<bar>binary64 q - q\<bar> \<le> q / 2 ^ 53 + 1 / 2 ^ 1075" by (rule binary64_error [OF q])
  have "(2::rat) ^ 1024 \<le> 2 ^ 1025 - 2 ^ 1025 / 2 ^ 53 - 1 / 2 ^ 1075" by simp
  also have "\<dots> \<le> q - q / 2 ^ 53 - 1 / 2 ^ 1075" using assms by simp
  also have "\<dots> \<le> binary64 q" using e by linarith
  finally show ?thesis by (simp add: to_number_def Let_def)
qed


section \<open>Worked values\<close>

text \<open>The conversions used as examples below, step by step.\<close>

lemma parseFloat_1_0002: "parseFloat ''1.0002'' = Num False (2252250173647985 / 2251799813685248)"
  using parseFloat_plain [of "''1''" "''0002''"]
        to_number_eqI [of "- 52" "10002 / 10 ^ 4" 4504500347295970 False]
  by (simp add: is_digit_def digits_val_def digit_val_def pow2_def)

lemma grains_of_1_0002:
  "Num False (2252250173647985 / 2251799813685248) * GRAINS_PER_GRAM
     = Num False (8689382971549485 / 562949953421312)"
  using to_number_eqI [of "- 49" "2252250173647985 / 2251799813685248 * (8687645442460993 / 562949953421312)"
          8689382971549485 False]
  by (simp add: pow2_def GRAINS_PER_GRAM_value times_number_def)

lemma toFixed_15_44: "toFixed 2 (Num False (8689382971549485 / 562949953421312)) = ''15.44''"
  using toFixed_eqI [of 1544 "8689382971549485 / 562949953421312" 2 False]
  by (simp add: digits_of_small digits_of_large digit_char_simps)

lemma parseFloat_15_44: "parseFloat ''15.44'' = Num False (8691947280825057 / 562949953421312)"
  using parseFloat_plain [of "''15''" "''44''"]
        to_number_eqI [of "- 49" "1544 / 10 ^ 2" 8691947280825057 False]
  by (simp add: is_digit_def digits_val_def digit_val_def pow2_def)

lemma grams_of_15_44:
  "Num False (8691947280825057 / 562949953421312) / GRAINS_PER_GRAM
     = Num False (1126457415714899 / 1125899906842624)"
  using to_number_eqI [of "- 52" "8691947280825057 / 562949953421312 / (8687645442460993 / 562949953421312)"
          4505829662859596 False]
  by (simp add: pow2_def GRAINS_PER_GRAM_value divide_number_def)

lemma toFixed_1_0005: "toFixed 4 (Num False (1126457415714899 / 1125899906842624)) = ''1.0005''"
  using toFixed_eqI [of 10005 "1126457415714899 / 1125899906842624" 4 False]
  by (simp add: digits_of_small digits_of_large digit_char_simps)

lemma parseFloat_1_0005: "parseFloat ''1.0005'' = Num False (4505851427184181 / 4503599627370496)"
  using parseFloat_plain [of "''1''" "''0005''"]
        to_number_eqI [of "- 52" "10005 / 10 ^ 4" 4505851427184181 False]
  by (simp add: is_digit_def digits_val_def digit_val_def pow2_def)

lemma round_trip_1_0002:
  "grams_round_trip ''1.0002'' initial_converter = \<lparr> convGrains = ''15.44'', convGrams = ''1.0005'' \<rparr>"
  by (simp add: grams_round_trip_def handleGramsChange_def handleGrainsChange_def Let_def isNaN_def
        initial_converter_def parseFloat_1_0002 grains_of_1_0002 toFixed_15_44 parseFloat_15_44
        grams_of_15_44 toFixed_1_0005)

lemma parseFloat_Infinity: "parseFloat ''Infinity'' = Infinity False"
  by code_simp

lemma round_trip_1e308:
  "isFinite (parseFloat ''1e308'')
   \<and> grams_round_trip ''1e308'' initial_converter
       = \<lparr> convGrains = ''Infinity'', convGrams = ''Infinity'' \<rparr>"
proof -
  define y :: rat where "y = binary64 (10 ^ 308)"
  have "parseFloat ''1e308'' = to_number False (10 ^ 308)"
    by (simp add: parseFloat_def StrUnsignedDecimalLiteral_def exponent_part_def pow10_def
          is_digit_def is_whitespace_def digits_val_def digit_val_def Let_def)
  also have "\<dots> = Num False y" unfolding y_def by (rule to_number_finite) simp_all
  finally have p: "parseFloat ''1e308'' = Num False y" .
  have e: "\<bar>y - 10 ^ 308\<bar> \<le> 10 ^ 308 / 2 ^ 53 + 1 / 2 ^ 1075"
    unfolding y_def by (rule binary64_error) simp
  have "(2::rat) ^ 1025 \<le> (10 ^ 308 - 10 ^ 308 / 2 ^ 53 - 1 / 2 ^ 1075) * (8687645442460993 / 562949953421312)"
    by simp
  also have "\<dots> \<le> y * (8687645442460993 / 562949953421312)"
    using e by (intro mult_right_mono) (linarith, simp)
  finally have "to_number False (y * (8687645442460993 / 562949953421312)) = Infinity False"
    by (rule to_number_overflow)
  hence m: "Num False y * GRAINS_PER_GRAM = Infinity False"
    by (simp add: GRAINS_PER_GRAM_value times_number_def)
  have d: "Infinity False / GRAINS_PER_GRAM = Infinity False"
    by (simp add: GRAINS_PER_GRAM_value divide_number_def)
  have 1: "handleGramsChange ''1e308'' initial_converter
             = \<lparr> convGrains = ''Infinity'', convGrams = ''1e308'' \<rparr>"
    by (simp add: handleGramsChange_def Let_def isNaN_def initial_converter_def p m toFixed_def)
  have 2: "handleGrainsChange ''Infinity'' \<lparr> convGrains = ''Infinity'', convGrams = ''1e308'' \<rparr>
             = \<lparr> convGrains = ''Infinity'', convGrams = ''Infinity'' \<rparr>"
    by (simp add: handleGrainsChange_def Let_def isNaN_def parseFloat_Infinity d toFixed_def)
  from 1 2 p show ?thesis by (simp add: grams_round_trip_def Let_def)
qed






section \<open>The unit converter\<close>

text \<open>
  C6.  When the typed string does not parse as a number, the edited field holds exactly
  that string and the other field keeps its value.
\<close>

theorem converter_unparsed_input:
  assumes "parseFloat val = NaN"
  shows "handleGrainsChange val st = st\<lparr> convGrains := val \<rparr>
       \<and> handleGramsChange val st = st\<lparr> convGrams := val \<rparr>"
  using assms by (simp add: handleGrainsChange_def handleGramsChange_def isNaN_def Let_def)

theorem converter_unparsed_input_witness:
  "parseFloat ''abc'' = NaN
   \<and> handleGrainsChange ''abc'' initial_converter = \<lparr> convGrains = ''abc'', convGrams = ''1.00'' \<rparr>
   \<and> handleGramsChange ''abc'' initial_converter = \<lparr> convGrains = ''15.43'', convGrams = ''abc'' \<rparr>"
  using converter_unparsed_input [OF parseFloat_abc, of initial_converter] parseFloat_abc
  by (simp add: initial_converter_def)



lemma to_number_small:
  assumes "0 \<le> q" "q \<le> 10 ^ 20"
  shows "to_number s q = Num s (binary64 q)" and "0 \<le> binary64 q"
    and "binary64 q \<le> q + q / 2 ^ 53 + 1 / 2 ^ 60" and "q - q / 2 ^ 53 - 1 / 2 ^ 60 \<le> binary64 q"
    and "binary64 q < 10 ^ 21"
proof -
  have e: "\<bar>binary64 q - q\<bar> \<le> q / 2 ^ 53 + 1 / 2 ^ 1075" by (rule binary64_error [OF assms(1)])
  have t: "(1::rat) / 2 ^ 1075 \<le> 1 / 2 ^ 60" by simp
  from e t show u: "binary64 q \<le> q + q / 2 ^ 53 + 1 / 2 ^ 60" by linarith
  from e t show "q - q / 2 ^ 53 - 1 / 2 ^ 60 \<le> binary64 q" by linarith
  from u assms show lt: "binary64 q < 10 ^ 21" by simp
  have "(10::rat) ^ 21 < 2 ^ 1024" by simp
  with lt have "\<not> 2 ^ 1024 \<le> binary64 q" by linarith
  thus "to_number s q = Num s (binary64 q)" by (simp add: to_number_def Let_def)
  show "0 \<le> binary64 q" by (rule binary64_nonneg [OF assms(1)])
qed

lemma floor_half_bounds:
  fixes r :: rat
  shows "r - 1 / 2 < of_int \<lfloor>r + 1 / 2\<rfloor>" and "of_int \<lfloor>r + 1 / 2\<rfloor> \<le> r + 1 / 2"
  by linarith+

text \<open>
  C4.  A positive value of at most \<open>10 ^ 9\<close> typed into the grams field comes back from
  the round trip (grams to grains, then that grains string back to grams) as a finite
  number within \<open>0.0004\<close> of it: rounding the grains to 2 decimal places costs up to
  \<open>0.005 / 15.4323584\<close> grams, rounding the grams to 4 places up to \<open>0.00005\<close>, and the
  four binary64 roundings on the way the rest.
\<close>

theorem grams_round_trip_bound:
  assumes pf: "parseFloat val = Num False x" and x: "0 < x" "x \<le> 10 ^ 9"
  shows "within_tolerance (4 / 10 ^ 4) (parseFloat (convGrams (grams_round_trip val st))) (Num False x)"
proof -
  define c :: rat where "c = 8687645442460993 / 562949953421312"
  have G: "GRAINS_PER_GRAM = Num False c" by (simp add: GRAINS_PER_GRAM_value c_def)
  have c0: "c \<noteq> 0" by (simp add: c_def)
  \<comment> \<open>grams to grains\<close>
  define y where "y = binary64 (x * c)"
  have xc: "0 \<le> x * c" "x * c \<le> 10 ^ 20" using x by (simp_all add: c_def)
  note Y = to_number_small [OF xc, folded y_def]
  have m1: "Num False x * GRAINS_PER_GRAM = Num False y"
    by (simp add: G times_number_def Y(1))
  define n1 where "n1 = \<lfloor>y * 10 ^ 2 + 1 / 2\<rfloor>"
  define r1 :: rat where "r1 = of_int n1 / 10 ^ 2"
  have st1: "convGrains (handleGramsChange val st) = toFixed 2 (Num False y)"
    by (simp add: handleGramsChange_def pf isNaN_def Let_def m1)
  have p1: "parseFloat (toFixed 2 (Num False y)) = to_number False r1"
    using parseFloat_toFixed [OF Y(2) Y(5), of 2 False] by (simp add: r1_def n1_def)
  have r1b: "y - 1 / 200 < r1" "r1 \<le> y + 1 / 200"
    using floor_half_bounds [of "y * 10 ^ 2"] by (simp_all add: r1_def n1_def field_simps)
  have yb: "y \<le> 10 ^ 11" using Y(3) x by (simp add: c_def)
  have r1r: "0 \<le> r1" "r1 \<le> 10 ^ 20"
    using Y(2) yb r1b by (simp_all add: r1_def n1_def)
  define g where "g = binary64 r1"
  note Gb = to_number_small [OF r1r, folded g_def]
  \<comment> \<open>grains to grams\<close>
  define z where "z = binary64 (g / c)"
  have gb: "g \<le> 10 ^ 12" using Gb(3) r1b yb by simp
  have gc: "0 \<le> g / c" "g / c \<le> 10 ^ 20" using Gb(2) gb by (simp_all add: c_def)
  note Z = to_number_small [OF gc, folded z_def]
  have d1: "Num False g / GRAINS_PER_GRAM = Num False z"
    by (simp add: G divide_number_def c0 Z(1))
  define n2 where "n2 = \<lfloor>z * 10 ^ 4 + 1 / 2\<rfloor>"
  define r2 :: rat where "r2 = of_int n2 / 10 ^ 4"
  have rt: "convGrams (grams_round_trip val st) = toFixed 4 (Num False z)"
    by (simp add: grams_round_trip_def Let_def st1 handleGrainsChange_def p1 Gb(1) isNaN_def d1)
  have p2: "parseFloat (toFixed 4 (Num False z)) = to_number False r2"
    using parseFloat_toFixed [OF Z(2) Z(5), of 4 False] by (simp add: r2_def n2_def)
  have r2b: "z - 1 / 20000 < r2" "r2 \<le> z + 1 / 20000"
    using floor_half_bounds [of "z * 10 ^ 4"] by (simp_all add: r2_def n2_def field_simps)
  have zb: "z \<le> 10 ^ 12" using Z(3) gb Gb(2) by (simp add: c_def)
  have r2r: "0 \<le> r2" "r2 \<le> 10 ^ 20"
    using Z(2) zb r2b by (simp_all add: r2_def n2_def)
  define x' where "x' = binary64 r2"
  note X = to_number_small [OF r2r, folded x'_def]
  have fin: "parseFloat (convGrams (grams_round_trip val st)) = Num False x'"
    by (simp add: rt p2 X(1))
  \<comment> \<open>the error budget\<close>
  have 1: "x' - x \<le> 4 / 10 ^ 4"
    using Y(3,4) r1b Gb(3,4) Z(3,4) r2b X(3,4) x unfolding c_def by (simp add: field_simps)
  have 2: "x - x' \<le> 4 / 10 ^ 4"
    using Y(3,4) r1b Gb(3,4) Z(3,4) r2b X(3,4) x unfolding c_def by (simp add: field_simps)
  from 1 2 have "\<bar>x' - x\<bar> \<le> 4 / 10 ^ 4" by linarith
  thus ?thesis by (simp add: fin signed_def)
qed

theorem grams_round_trip_bound_witness:
  "within_tolerance (4 / 10 ^ 4)
     (parseFloat (convGrams (grams_round_trip ''1.0002'' initial_converter))) (parseFloat ''1.0002'')"
proof -
  have "(0::rat) < 2252250173647985 / 2251799813685248"
    and "(2252250173647985 / 2251799813685248 :: rat) \<le> 10 ^ 9" by simp_all
  from grams_round_trip_bound [OF parseFloat_1_0002 this, of initial_converter]
  show ?thesis by (simp only: parseFloat_1_0002)
qed

text \<open>
  The claim as stated fails.  Typing \<open>1.0002\<close> into the grams field gives \<open>15.44\<close> grains,
  and that string gives \<open>1.0005\<close> grams: three units of the fourth decimal place away,
  where the displayed tolerance is one.  Typing \<open>1e308\<close>, a positive finite number,
  gives \<open>Infinity\<close> in both fields.
\<close>

theorem grams_round_trip_counterexample:
  "parseFloat ''1.0002'' = Num False (2252250173647985 / 2251799813685248)
   \<and> grams_round_trip ''1.0002'' initial_converter = \<lparr> convGrains = ''15.44'', convGrams = ''1.0005'' \<rparr>
   \<and> \<not> within_tolerance (1 / 10 ^ 4)
         (parseFloat (convGrams (grams_round_trip ''1.0002'' initial_converter))) (parseFloat ''1.0002'')
   \<and> isFinite (parseFloat ''1e308'')
   \<and> grams_round_trip ''1e308'' initial_converter
       = \<lparr> convGrains = ''Infinity'', convGrams = ''Infinity'' \<rparr>
   \<and> \<not> within_tolerance (4 / 10 ^ 4)
         (parseFloat (convGrams (grams_round_trip ''1e308'' initial_converter))) (parseFloat ''1e308'')"
proof -
  have 1: "\<not> within_tolerance (1 / 10 ^ 4)
         (parseFloat (convGrams (grams_round_trip ''1.0002'' initial_converter))) (parseFloat ''1.0002'')"
    by (simp add: round_trip_1_0002 parseFloat_1_0005 parseFloat_1_0002 signed_def)
  have 2: "\<not> within_tolerance (4 / 10 ^ 4)
         (parseFloat (convGrams (grams_round_trip ''1e308'' initial_converter))) (parseFloat ''1e308'')"
    using round_trip_1e308 by (simp add: parseFloat_Infinity)
  from parseFloat_1_0002 round_trip_1_0002 1 round_trip_1e308 2 show ?thesis by blast
qed

section \<open>Failure of the analysis call\<close>

text \<open>
  C9.  When an image is selected (so that the call is made), no result is held, and the
  call throws or its response does not parse, then afterwards the error state holds
  the non-empty message, the result is still null, the selected image is the same,
  the busy flag is off, and the store and the load list of the page are untouched.
\<close>

theorem analyzeImage_failure:
  assumes "truthy_string (selectedImage (analysis_tab page))"
      and "result (analysis_tab page) = None"
      and "try_block generateContent JSON_parse
             ((analysis_tab page)\<lparr> isAnalyzing := True, error := None \<rparr>) = Inl err"
  shows "(\<exists>msg. error (analysis_tab (Page_analyzeImage generateContent JSON_parse page)) = Some msg
            \<and> msg \<noteq> [])
       \<and> result (analysis_tab (Page_analyzeImage generateContent JSON_parse page)) = None
       \<and> selectedImage (analysis_tab (Page_analyzeImage generateContent JSON_parse page))
           = selectedImage (analysis_tab page)
       \<and> isAnalyzing (analysis_tab (Page_analyzeImage generateContent JSON_parse page)) = False
       \<and> load_manager (Page_analyzeImage generateContent JSON_parse page) = load_manager page"
  using assms by (simp add: Page_analyzeImage_def analyzeImage_def Let_def)

theorem analyzeImage_failure_witness:
  "error (analysis_tab (Page_analyzeImage example_quota example_parse_result example_page))
     = Some ''Fehler bei der Analyse. Bitte versuche es erneut.''
   \<and> result (analysis_tab (Page_analyzeImage example_quota example_parse_result example_page)) = None
   \<and> selectedImage (analysis_tab (Page_analyzeImage example_quota example_parse_result example_page))
       = Some ''data:image/jpeg;base64,AAAA''
   \<and> result (analysis_tab (Page_analyzeImage example_generateContent example_parse_result example_page))
       = None
   \<and> load_manager (Page_analyzeImage example_generateContent example_parse_result example_page)
       = load_manager example_page"
proof -
  have 1: "truthy_string (selectedImage (analysis_tab example_page))"
    by (simp add: example_page_def example_analysis_def)
  have 2: "result (analysis_tab example_page) = None"
    by (simp add: example_page_def example_analysis_def)
  have 3: "try_block example_quota example_parse_result
             ((analysis_tab example_page)\<lparr> isAnalyzing := True, error := None \<rparr>) = Inl (ApiError ''429'')"
    by (simp add: try_block_def example_quota_def Let_def)
  have 4: "try_block example_generateContent example_parse_result
             ((analysis_tab example_page)\<lparr> isAnalyzing := True, error := None \<rparr>) = Inl SyntaxError"
    by (simp add: try_block_def example_generateContent_def example_parse_result_def Let_def)
  have e: "error (analysis_tab (Page_analyzeImage example_quota example_parse_result example_page))
     = Some ''Fehler bei der Analyse. Bitte versuche es erneut.''"
    using 1 3 by (simp add: Page_analyzeImage_def analyzeImage_def Let_def)
  from analyzeImage_failure [OF 1 2 3] analyzeImage_failure [OF 1 2 4] e show ?thesis
    by (simp add: example_page_def example_analysis_def)
qed

end
